theory Spec2Isabelle
  imports Main "HOL-Library.Word" "HOL-Library.Signed_Division"
begin

section \<open>The QUIC benchmark client (examples/client.c)\<close>

text \<open>
  The driver is a set of libev callbacks sharing one \<open>struct conn_io\<close> and the global
  table \<open>fcts\<close>. The protocol engine (quiche), the socket, the clock and libev are outside
  the program: every answer they give to a callback is an input of that callback, and
  every call the program makes to them is appended to a trace, in program order.
  Diagnostics written to stderr are not part of the trace.
\<close>

subsection \<open>Constants\<close>

definition N :: int where
  "N = 100"

text \<open>
  Modelled from the spec: the engine's "nothing more to do" result code. Its declaration
  is in quiche.h, where it is the value -1; the driver only compares results with it.
\<close>

definition QUICHE_ERR_DONE :: int where
  "QUICHE_ERR_DONE = - 1"

subsection \<open>Data\<close>

record timeval =
  tv_sec :: int
  tv_usec :: int

text \<open>\<open>struct fct\<close>; its fields are \<open>begin\<close> and \<open>end\<close> in the source.\<close>

record fct =
  fct_begin :: timeval
  fct_end :: timeval

definition tv_zero :: timeval where
  "tv_zero = \<lparr>tv_sec = 0, tv_usec = 0\<rparr>"

definition fct_zero :: fct where
  "fct_zero = \<lparr>fct_begin = tv_zero, fct_end = tv_zero\<rparr>"

text \<open>
  A libev timer, as far as the driver uses it: the repeat interval (kept in nanoseconds
  instead of a double of seconds) and whether the timer is running.
\<close>

record ev_timer =
  repeat :: nat
  active :: bool

definition ev_timer_again :: "ev_timer \<Rightarrow> ev_timer" where
  "ev_timer_again t = t\<lparr>active := (0 < repeat t)\<rparr>"

definition ev_timer_stop :: "ev_timer \<Rightarrow> ev_timer" where
  "ev_timer_stop t = t\<lparr>active := False\<rparr>"

definition ev_init :: ev_timer where
  "ev_init = \<lparr>repeat = 0, active = False\<rparr>"

datatype status = Running | Loop_broken | Exited int

text \<open>Calls to the outside and writes into the table, as they happen.\<close>

datatype event =
    Conn_send
  | Sock_send int
  | Sock_recv
  | Conn_recv int
  | Stream_recv "64 word"
  | Print_data int
  | Set_end int timeval
  | Stream_send int int
  | Set_begin int timeval
  | Conn_on_timeout
  | Print_line int int
  | Conn_close
  | Ev_break
  | Exit int

text \<open>
  \<open>struct conn_io\<close> (the socket and connection handles are opaque and left out), then the
  program state around it: the global table, whether the process still runs, the trace.
\<close>

record conn_io =
  timer :: ev_timer
  request :: ev_timer
  close :: ev_timer
  request_id :: int

record world = conn_io +
  fcts :: "fct list"
  status :: status
  trace :: "event list"

definition emit :: "event list \<Rightarrow> world \<Rightarrow> world" where
  "emit es w = w\<lparr>trace := trace w @ es\<rparr>"

text \<open>
  The two stores into \<open>fcts\<close>. The table has \<open>N\<close> entries; C does not check the index, and
  a store at an index outside \<open>0..N-1\<close> lands outside the table. The trace records every
  store with its index; the \<open>N\<close> entries change only when the index is inside.
\<close>

definition in_table :: "int \<Rightarrow> bool" where
  "in_table idx \<longleftrightarrow> 0 \<le> idx \<and> idx < N"

definition store_begin :: "int \<Rightarrow> timeval \<Rightarrow> world \<Rightarrow> world" where
  "store_begin idx tv w =
     emit [Set_begin idx tv]
       (if in_table idx
        then w\<lparr>fcts := (fcts w)[nat idx := (fcts w ! nat idx)\<lparr>fct_begin := tv\<rparr>]\<rparr>
        else w)"

definition store_end :: "int \<Rightarrow> timeval \<Rightarrow> world \<Rightarrow> world" where
  "store_end idx tv w =
     emit [Set_end idx tv]
       (if in_table idx
        then w\<lparr>fcts := (fcts w)[nat idx := (fcts w ! nat idx)\<lparr>fct_end := tv\<rparr>]\<rparr>
        else w)"

subsection \<open>flush_egress\<close>

text \<open>
  The engine's answers to \<open>quiche_conn_send\<close>, each paired with the socket's answer to the
  \<open>send\<close> that follows it; when the list is used up the engine answers
  \<open>QUICHE_ERR_DONE\<close>. The result says whether the loop was left by \<open>break\<close> (True) or the
  function by \<open>return\<close> (False).
\<close>

record flush_in =
  packets :: "(int \<times> int) list"
  timeout_as_nanos :: nat

fun send_loop :: "(int \<times> int) list \<Rightarrow> bool \<times> event list" where
  "send_loop [] = (True, [Conn_send])"
| "send_loop ((written, sent) # ps) =
     (if written = QUICHE_ERR_DONE then (True, [Conn_send])
      else if written < 0 then (False, [Conn_send])
      else if sent \<noteq> written then (False, [Conn_send, Sock_send written])
      else (fst (send_loop ps), Conn_send # Sock_send written # snd (send_loop ps)))"

definition flush_egress :: "flush_in \<Rightarrow> world \<Rightarrow> world" where
  "flush_egress f w =
     (let w1 = emit (snd (send_loop (packets f))) w
      in if fst (send_loop (packets f))
         then w1\<lparr>timer := ev_timer_again ((timer w1)\<lparr>repeat := timeout_as_nanos f\<rparr>)\<rparr>
         else w1)"

subsection \<open>recv_cb\<close>

text \<open>
  One entry per datagram: the result of \<open>recv\<close>, whether errno is EWOULDBLOCK or EAGAIN
  when it is negative, and the result of \<open>quiche_conn_recv\<close>. When the list is used up
  \<open>recv\<close> would block.
\<close>

fun recv_loop :: "(int \<times> bool \<times> int) list \<Rightarrow> bool \<times> event list" where
  "recv_loop [] = (True, [Sock_recv])"
| "recv_loop ((rd, would_block, done) # ds) =
     (if rd < 0 then (would_block, [Sock_recv])
      else if done = QUICHE_ERR_DONE then (True, [Sock_recv, Conn_recv rd])
      else if done < 0 then (False, [Sock_recv, Conn_recv rd])
      else (fst (recv_loop ds), Sock_recv # Conn_recv rd # snd (recv_loop ds)))"

text \<open>
  One entry per stream the iterator yields: its identifier, the result and the fin flag
  of \<open>quiche_conn_stream_recv\<close>, and what \<open>gettimeofday\<close> answers if it is asked.
\<close>

fun stream_loop :: "(64 word \<times> int \<times> bool \<times> timeval) list \<Rightarrow> world \<Rightarrow> world" where
  "stream_loop [] w = w"
| "stream_loop ((s, recv_len, fin, now) # rs) w =
     (if recv_len < 0 then emit [Stream_recv s] w
      else stream_loop rs
             ((if fin then store_end (uint (s div 4)) now else id)
                (emit [Stream_recv s, Print_data recv_len] w)))"

record recv_in =
  datagrams :: "(int \<times> bool \<times> int) list"
  r_is_closed :: bool
  r_is_established :: bool
  readable :: "(64 word \<times> int \<times> bool \<times> timeval) list"
  r_flush :: flush_in

definition recv_cb :: "recv_in \<Rightarrow> world \<Rightarrow> world" where
  "recv_cb i w =
     (let w1 = emit (snd (recv_loop (datagrams i))) w
      in if \<not> fst (recv_loop (datagrams i)) then w1
         else if r_is_closed i then (emit [Ev_break] w1)\<lparr>status := Loop_broken\<rparr>
         else flush_egress (r_flush i)
                (if r_is_established i then stream_loop (readable i) w1 else w1))"

subsection \<open>request_cb\<close>

record request_in =
  q_is_established :: bool
  stream_send_result :: int
  q_now :: timeval
  q_flush :: flush_in

definition rearm :: "world \<Rightarrow> world" where
  "rearm w =
     (if request_id w > 4 * N
      then w\<lparr>close := ev_timer_again ((close w)\<lparr>repeat := 1000000000\<rparr>),
             request := ev_timer_stop (request w)\<rparr>
      else w\<lparr>request := ev_timer_again ((request w)\<lparr>repeat := 100000000\<rparr>)\<rparr>)"

definition request_cb :: "request_in \<Rightarrow> world \<Rightarrow> world" where
  "request_cb i w =
     (if q_is_established i \<and> request_id w \<le> 4 * N
      then let w1 = emit [Stream_send (request_id w) (stream_send_result i)] w
           in if stream_send_result i < 0 then w1
              else flush_egress (q_flush i)
                     (rearm ((store_begin (request_id w1 sdiv 4) (q_now i) w1)
                               \<lparr>request_id := request_id w1 + 4\<rparr>))
      else flush_egress (q_flush i) (rearm w))"

subsection \<open>timeout_cb\<close>

record timeout_in =
  t_flush :: flush_in
  t_is_closed :: bool

definition timeout_cb :: "timeout_in \<Rightarrow> world \<Rightarrow> world" where
  "timeout_cb i w =
     (let w1 = flush_egress (t_flush i) (emit [Conn_on_timeout] w)
      in if t_is_closed i then (emit [Ev_break] w1)\<lparr>status := Loop_broken\<rparr> else w1)"

subsection \<open>close_cb\<close>

text \<open>
  The value of \<open>t\<close> for one entry: the arithmetic is done in \<open>long\<close>, division truncates,
  the result is stored in an \<open>unsigned long long\<close> and printed with \<open>%lld\<close>, that is, read
  back as a signed 64-bit number.
\<close>

definition elapsed :: "fct \<Rightarrow> int" where
  "elapsed e =
     sint (word_of_int
       (1000 * (tv_sec (fct_end e) - tv_sec (fct_begin e))
          + (tv_usec (fct_end e) - tv_usec (fct_begin e)) sdiv 1000) :: 64 word)"

definition report :: "fct list \<Rightarrow> event list" where
  "report tbl = map (\<lambda>i. Print_line i (elapsed (tbl ! nat i))) [0..N - 1]"

definition close_cb :: "int \<Rightarrow> world \<Rightarrow> world" where
  "close_cb close_result w =
     (let w1 = emit (report (fcts w) @ [Conn_close]) w
      in if close_result < 0
         then (emit [Exit (- 1)] w1)\<lparr>status := Exited (- 1)\<rparr>
         else (emit [Exit 0] w1)\<lparr>status := Exited 0\<rparr>)"

text \<open>The status the parent process sees for \<open>exit(c)\<close>: the low eight bits of \<open>c\<close>.\<close>

definition exit_status :: "int \<Rightarrow> int" where
  "exit_status c = c mod 256"

subsection \<open>main and the event loop\<close>

text \<open>
  \<open>main\<close> from the point where the connection exists: it fills in \<open>conn_io\<close>, clears the
  table, starts the request timer, flushes once and enters the loop. The loop hands each
  stimulus to its callback until a callback breaks the loop or exits the process.
\<close>

definition main_init :: world where
  "main_init =
     \<lparr>timer = ev_init,
      request = ev_timer_again (ev_init\<lparr>repeat := 100000000\<rparr>),
      close = ev_init,
      request_id = 4,
      fcts = replicate (nat N) fct_zero,
      status = Running,
      trace = []\<rparr>"

datatype stimulus =
    Readable recv_in
  | Timeout timeout_in
  | Request request_in
  | Close int

fun dispatch :: "world \<Rightarrow> stimulus \<Rightarrow> world" where
  "dispatch w (Readable i) = (if status w = Running then recv_cb i w else w)"
| "dispatch w (Timeout i) = (if status w = Running then timeout_cb i w else w)"
| "dispatch w (Request i) = (if status w = Running then request_cb i w else w)"
| "dispatch w (Close r) = (if status w = Running then close_cb r w else w)"

definition ev_loop :: "stimulus list \<Rightarrow> world \<Rightarrow> world" where
  "ev_loop ss w = foldl dispatch w ss"

definition main_run :: "flush_in \<Rightarrow> stimulus list \<Rightarrow> world" where
  "main_run f ss = ev_loop ss (flush_egress f main_init)"

subsection \<open>Observations on a trace\<close>

text \<open>The identifiers of the requests issued: the stream writes the engine accepted.\<close>

fun issued :: "event list \<Rightarrow> int list" where
  "issued [] = []"
| "issued (Stream_send sid r # es) = (if r < 0 then issued es else sid # issued es)"
| "issued (_ # es) = issued es"

text \<open>The indices at which begin timestamps, and end timestamps, were stored.\<close>

fun begin_indices :: "event list \<Rightarrow> int list" where
  "begin_indices [] = []"
| "begin_indices (Set_begin idx tv # es) = idx # begin_indices es"
| "begin_indices (_ # es) = begin_indices es"

fun end_indices :: "event list \<Rightarrow> int list" where
  "end_indices [] = []"
| "end_indices (Set_end idx tv # es) = idx # end_indices es"
| "end_indices (_ # es) = end_indices es"

subsection \<open>Invariants of a run\<close>

text \<open>
  The identifier counter is 4 plus four times the number of requests issued so far, it
  never passes \<open>4 * N + 4\<close>, and the requests issued so far carry the identifiers
  4, 8, 12, ... in this order.
\<close>

definition id_inv :: "world \<Rightarrow> bool" where
  "id_inv w \<longleftrightarrow>
     request_id w = 4 + 4 * int (length (issued (trace w))) \<and>
     request_id w \<le> 4 * N + 4 \<and>
     issued (trace w) = map (\<lambda>k. 4 + 4 * int k) [0..<length (issued (trace w))]"

text \<open>
  Entry 0 of the table: its begin timestamp is zero, begin timestamps have only been
  stored at indices from 1 on, and its end timestamp is zero unless one was stored at
  index 0.
\<close>

definition slot0_inv :: "world \<Rightarrow> bool" where
  "slot0_inv w \<longleftrightarrow>
     length (fcts w) = nat N \<and> 4 \<le> request_id w \<and>
     fct_begin (fcts w ! 0) = tv_zero \<and>
     (\<forall>idx\<in>set (begin_indices (trace w)). 1 \<le> idx) \<and>
     (0 \<notin> set (end_indices (trace w)) \<longrightarrow> fct_end (fcts w ! 0) = tv_zero)"

subsection \<open>Concrete inputs\<close>

text \<open>
  Flushes: one with nothing to send, one that sends a packet of 1200 bytes, and one whose
  first \<open>send\<close> would block (it returns -1 for a packet of 1200 bytes).
\<close>

definition idle :: flush_in where
  "idle = \<lparr>packets = [], timeout_as_nanos = 1000000\<rparr>"

definition one_packet :: flush_in where
  "one_packet = \<lparr>packets = [(1200, 1200)], timeout_as_nanos = 1000000\<rparr>"

definition blocked_send :: flush_in where
  "blocked_send = \<lparr>packets = [(1200, - 1), (1200, 1200)], timeout_as_nanos = 1000000\<rparr>"

text \<open>The times of day at which requests go out and at which a stream finishes.\<close>

definition t_issue :: timeval where
  "t_issue = \<lparr>tv_sec = 100, tv_usec = 500000\<rparr>"

definition t_done :: timeval where
  "t_done = \<lparr>tv_sec = 101, tv_usec = 0\<rparr>"

text \<open>
  Request ticks: on an established connection with the stream write accepted in full
  (the 18 bytes of the request), on an established connection with the stream write
  refused, and during the handshake.
\<close>

definition tick_ok :: request_in where
  "tick_ok = \<lparr>q_is_established = True, stream_send_result = 18, q_now = t_issue, q_flush = idle\<rparr>"

definition tick_fail :: request_in where
  "tick_fail = \<lparr>q_is_established = True, stream_send_result = - 12, q_now = t_issue, q_flush = idle\<rparr>"

definition tick_handshaking :: request_in where
  "tick_handshaking =
     \<lparr>q_is_established = False, stream_send_result = 0, q_now = t_issue, q_flush = one_packet\<rparr>"

text \<open>
  Socket readiness: \<open>recv\<close> fails with an error other than would-block; one datagram
  arrives and streams 4 and 8 are readable, the read of stream 4 failing; the same with
  streams 4, 8 and 12, the read of stream 8 failing; one datagram arrives and the
  server-initiated stream 3 is readable and finished.
\<close>

definition recv_fails :: recv_in where
  "recv_fails =
     \<lparr>datagrams = [(- 1, False, 0)], r_is_closed = False, r_is_established = True,
      readable = [], r_flush = one_packet\<rparr>"

definition two_streams :: recv_in where
  "two_streams =
     \<lparr>datagrams = [(1200, False, 1200)], r_is_closed = False, r_is_established = True,
      readable = [(4, - 7, False, t_done), (8, 10, True, t_done)], r_flush = idle\<rparr>"

definition three_streams :: recv_in where
  "three_streams =
     \<lparr>datagrams = [(1200, False, 1200)], r_is_closed = False, r_is_established = True,
      readable = [(4, 10, True, t_done), (8, - 7, False, t_done), (12, 10, True, t_done)],
      r_flush = idle\<rparr>"

definition server_stream :: recv_in where
  "server_stream =
     \<lparr>datagrams = [(1200, False, 1200)], r_is_closed = False, r_is_established = True,
      readable = [(3, 5, True, t_done)], r_flush = idle\<rparr>"

section \<open>What each operation changes\<close>

lemma issued_append: "issued (xs @ ys) = issued xs @ issued ys"
  by (induction xs rule: issued.induct) simp_all

lemma emit_fields [simp]:
  "request_id (emit es w) = request_id w"
  "fcts (emit es w) = fcts w"
  "status (emit es w) = status w"
  "timer (emit es w) = timer w"
  "request (emit es w) = request w"
  "close (emit es w) = close w"
  "trace (emit es w) = trace w @ es"
  by (simp_all add: emit_def)

lemma store_begin_fields [simp]:
  "request_id (store_begin idx tv w) = request_id w"
  "status (store_begin idx tv w) = status w"
  "timer (store_begin idx tv w) = timer w"
  "request (store_begin idx tv w) = request w"
  "close (store_begin idx tv w) = close w"
  "trace (store_begin idx tv w) = trace w @ [Set_begin idx tv]"
  "length (fcts (store_begin idx tv w)) = length (fcts w)"
  by (simp_all add: store_begin_def)

lemma store_end_fields [simp]:
  "request_id (store_end idx tv w) = request_id w"
  "status (store_end idx tv w) = status w"
  "timer (store_end idx tv w) = timer w"
  "request (store_end idx tv w) = request w"
  "close (store_end idx tv w) = close w"
  "trace (store_end idx tv w) = trace w @ [Set_end idx tv]"
  "length (fcts (store_end idx tv w)) = length (fcts w)"
  by (simp_all add: store_end_def)

lemma issued_send_loop [simp]: "issued (snd (send_loop ps)) = []"
  by (induction ps rule: send_loop.induct) simp_all

lemma issued_recv_loop [simp]: "issued (snd (recv_loop ds)) = []"
  by (induction ds rule: recv_loop.induct) simp_all

lemma issued_report [simp]: "issued (report tbl) = []"
proof -
  have "issued (map (\<lambda>i. Print_line i (g i)) js) = []" for g and js :: "int list"
    by (induction js) simp_all
  then show ?thesis by (simp add: report_def)
qed

lemma flush_egress_fields [simp]:
  "request_id (flush_egress f w) = request_id w"
  "fcts (flush_egress f w) = fcts w"
  "status (flush_egress f w) = status w"
  "request (flush_egress f w) = request w"
  "close (flush_egress f w) = close w"
  "trace (flush_egress f w) = trace w @ snd (send_loop (packets f))"
  by (simp_all add: flush_egress_def Let_def)

lemma stream_loop_fields [simp]:
  "request_id (stream_loop rs w) = request_id w"
  "status (stream_loop rs w) = status w"
  "timer (stream_loop rs w) = timer w"
  "request (stream_loop rs w) = request w"
  "close (stream_loop rs w) = close w"
  "length (fcts (stream_loop rs w)) = length (fcts w)"
  by (induction rs w rule: stream_loop.induct; simp)+

lemma issued_stream_loop [simp]: "issued (trace (stream_loop rs w)) = issued (trace w)"
  by (induction rs w rule: stream_loop.induct) (simp_all add: issued_append)

lemma rearm_fields [simp]:
  "request_id (rearm w) = request_id w"
  "fcts (rearm w) = fcts w"
  "status (rearm w) = status w"
  "timer (rearm w) = timer w"
  "trace (rearm w) = trace w"
  by (simp_all add: rearm_def)

subsection \<open>The identifier invariant holds in every run\<close>

lemma sdiv4_nonneg: "0 \<le> x \<Longrightarrow> x sdiv 4 = x div (4::int)"
  by (simp add: signed_divide_int_def sgn_if)
lemma id_inv_init: "id_inv (flush_egress f main_init)"
  by (simp add: id_inv_def main_init_def issued_append N_def)
lemma id_inv_recv_cb: "id_inv w \<Longrightarrow> id_inv (recv_cb i w)"
  by (simp add: id_inv_def recv_cb_def Let_def issued_append)
lemma id_inv_timeout_cb: "id_inv w \<Longrightarrow> id_inv (timeout_cb i w)"
  by (simp add: id_inv_def timeout_cb_def Let_def issued_append)
lemma id_inv_close_cb: "id_inv w \<Longrightarrow> id_inv (close_cb r w)"
  by (simp add: id_inv_def close_cb_def Let_def issued_append)
lemma id_inv_request_cb: "id_inv w \<Longrightarrow> id_inv (request_cb i w)"
  by (auto simp add: id_inv_def request_cb_def Let_def issued_append)
lemma id_inv_dispatch: "id_inv w \<Longrightarrow> id_inv (dispatch w s)"
  by (cases s) (simp_all add: id_inv_recv_cb id_inv_timeout_cb id_inv_close_cb id_inv_request_cb)
lemma id_inv_ev_loop: "id_inv w \<Longrightarrow> id_inv (ev_loop ss w)"
  unfolding ev_loop_def by (induction ss arbitrary: w) (simp_all add: id_inv_dispatch)
lemma id_inv_main_run: "id_inv (main_run f ss)"
  unfolding main_run_def by (rule id_inv_ev_loop) (rule id_inv_init)

subsection \<open>Runs of accepted request ticks\<close>

lemma ev_loop_snoc: "ev_loop (ss @ [s]) w = dispatch (ev_loop ss w) s"
  by (simp add: ev_loop_def)
lemma ev_loop_append: "ev_loop (ss @ ts) w = ev_loop ts (ev_loop ss w)"
  by (simp add: ev_loop_def)
lemma replicate_snoc: "replicate (Suc k) x = replicate k x @ [x]"
  by (simp add: replicate_append_same)
lemma tick_ok_step:
  assumes "status w = Running" "request_id w = 4 + 4 * int k" "k < 100"
  shows "request_id (dispatch w (Request tick_ok)) = 4 + 4 * int (Suc k)"
    and "status (dispatch w (Request tick_ok)) = Running"
    and "trace (dispatch w (Request tick_ok)) =
           trace w @ [Stream_send (4 + 4 * int k) 18, Set_begin (1 + int k) t_issue, Conn_send]"
    and "fcts (dispatch w (Request tick_ok)) =
           (if k < 99 then (fcts w)[Suc k := (fcts w ! Suc k)\<lparr>fct_begin := t_issue\<rparr>] else fcts w)"
proof -
  have d: "(4 + 4 * int k) sdiv 4 = 1 + int k"
    by (simp add: sdiv4_nonneg)
  have n: "nat (1 + int k) = Suc k" by simp
  show "request_id (dispatch w (Request tick_ok)) = 4 + 4 * int (Suc k)"
    using assms by (simp add: request_cb_def tick_ok_def N_def Let_def)
  show "status (dispatch w (Request tick_ok)) = Running"
    using assms by (simp add: request_cb_def tick_ok_def N_def Let_def)
  show "trace (dispatch w (Request tick_ok)) =
           trace w @ [Stream_send (4 + 4 * int k) 18, Set_begin (1 + int k) t_issue, Conn_send]"
    using assms by (simp add: request_cb_def tick_ok_def N_def Let_def d idle_def)
  show "fcts (dispatch w (Request tick_ok)) =
           (if k < 99 then (fcts w)[Suc k := (fcts w ! Suc k)\<lparr>fct_begin := t_issue\<rparr>] else fcts w)"
    using assms by (simp add: request_cb_def tick_ok_def N_def Let_def d store_begin_def in_table_def n)
qed
lemma ticks_run:
  assumes "status w = Running" "request_id w = 4" "k \<le> 100"
  shows "request_id (ev_loop (replicate k (Request tick_ok)) w) = 4 + 4 * int k \<and>
         status (ev_loop (replicate k (Request tick_ok)) w) = Running \<and>
         trace (ev_loop (replicate k (Request tick_ok)) w) =
           trace w @ concat (map (\<lambda>j. [Stream_send (4 + 4 * int j) 18,
                                          Set_begin (1 + int j) t_issue, Conn_send]) [0..<k]) \<and>
         length (fcts (ev_loop (replicate k (Request tick_ok)) w)) = length (fcts w) \<and>
         (\<forall>j < length (fcts w). fcts (ev_loop (replicate k (Request tick_ok)) w) ! j =
             (if 1 \<le> j \<and> j \<le> k \<and> j < 100 then (fcts w ! j)\<lparr>fct_begin := t_issue\<rparr> else fcts w ! j))"
  using assms(3)
proof (induction k)
  case 0
  then show ?case using assms(1,2) by (simp add: ev_loop_def)
next
  case (Suc k)
  let ?wk = "ev_loop (replicate k (Request tick_ok)) w"
  have k: "k < 100" using Suc.prems by simp
  have ih: "request_id ?wk = 4 + 4 * int k" "status ?wk = Running"
    "trace ?wk = trace w @ concat (map (\<lambda>j. [Stream_send (4 + 4 * int j) 18,
                                          Set_begin (1 + int j) t_issue, Conn_send]) [0..<k])"
    "length (fcts ?wk) = length (fcts w)"
    "\<forall>j < length (fcts w). fcts ?wk ! j =
             (if 1 \<le> j \<and> j \<le> k \<and> j < 100 then (fcts w ! j)\<lparr>fct_begin := t_issue\<rparr> else fcts w ! j)"
    using Suc.IH k by simp_all
  note st = tick_ok_step [OF ih(2) ih(1) k]
  have e: "ev_loop (replicate (Suc k) (Request tick_ok)) w = dispatch ?wk (Request tick_ok)"
    unfolding replicate_snoc by (rule ev_loop_snoc)
  have f: "\<forall>j < length (fcts w). fcts (dispatch ?wk (Request tick_ok)) ! j =
             (if 1 \<le> j \<and> j \<le> Suc k \<and> j < 100 then (fcts w ! j)\<lparr>fct_begin := t_issue\<rparr> else fcts w ! j)"
  proof (intro allI impI)
    fix j assume j: "j < length (fcts w)"
    show "fcts (dispatch ?wk (Request tick_ok)) ! j =
             (if 1 \<le> j \<and> j \<le> Suc k \<and> j < 100 then (fcts w ! j)\<lparr>fct_begin := t_issue\<rparr> else fcts w ! j)"
      unfolding st(4) using j ih(4) ih(5) k
      by (cases "j = Suc k") (auto simp add: nth_list_update)
  qed
  show ?case
    unfolding e using st(1,2) f by (simp add: st(3) st(4) ih(3) ih(4) del: dispatch.simps)
qed


lemma main_init_facts:
  "status (flush_egress f main_init) = Running"
  "request_id (flush_egress f main_init) = 4"
  "length (fcts (flush_egress f main_init)) = 100"
  "fcts (flush_egress f main_init) = replicate 100 fct_zero"
  "trace (flush_egress f main_init) = snd (send_loop (packets f))"
  by (simp_all add: main_init_def N_def)

lemma replicate_100: "replicate 100 x = replicate 99 x @ [x]"
  using replicate_snoc [of 99 x] by simp

lemma issued_ticks:
  "issued (concat (map (\<lambda>j. [Stream_send (a j) 18, Set_begin (b j) tv, Conn_send]) js)) = map a js"
  by (induction js) simp_all

lemma run_100_issued:
  "issued (trace (main_run f (replicate 100 (Request tick_ok)))) = map (\<lambda>j. 4 + 4 * int j) [0..<100]"
  using ticks_run [OF main_init_facts(1) main_init_facts(2), of 100 f]
  by (simp only: main_run_def issued_append issued_send_loop main_init_facts(5) issued_ticks
        append_Nil order_refl simp_thms)

subsection \<open>After the budget\<close>

lemma frozen_dispatch:
  "4 * N < request_id w \<Longrightarrow>
     issued (trace (dispatch w s)) = issued (trace w) \<and> request_id (dispatch w s) = request_id w"
  by (cases s)
     (simp_all add: recv_cb_def timeout_cb_def close_cb_def request_cb_def Let_def issued_append)

lemma frozen_ev_loop:
  "4 * N < request_id w \<Longrightarrow>
     issued (trace (ev_loop ts w)) = issued (trace w) \<and> request_id (ev_loop ts w) = request_id w"
proof (induction ts rule: rev_induct)
  case Nil
  then show ?case by (simp add: ev_loop_def)
next
  case (snoc s ts)
  then show ?case
    using frozen_dispatch [of "ev_loop ts w" s] by (simp add: ev_loop_snoc del: dispatch.simps)
qed

subsection \<open>The start of a run\<close>

lemma main_init_fields [simp]:
  "request_id main_init = 4"
  "status main_init = Running"
  "trace main_init = []"
  "fcts main_init = replicate 100 fct_zero"
  by (simp_all add: main_init_def N_def)

lemma main_run_Nil: "main_run f [] = flush_egress f main_init"
  by (simp add: main_run_def ev_loop_def)

lemma main_run_snoc: "main_run f (ss @ [s]) = dispatch (main_run f ss) s"
  by (simp add: main_run_def ev_loop_snoc)

lemma main_run_single: "main_run f [s] = dispatch (flush_egress f main_init) s"
  by (simp add: main_run_def ev_loop_def)

subsection \<open>Loops that stop at an error\<close>

lemma send_loop_short:
  "\<forall>p\<in>set pre. 0 \<le> fst p \<and> snd p = fst p \<Longrightarrow> 0 \<le> written \<Longrightarrow> sent \<noteq> written \<Longrightarrow>
     send_loop (pre @ (written, sent) # rest) =
       (False, concat (map (\<lambda>p. [Conn_send, Sock_send (fst p)]) pre) @ [Conn_send, Sock_send written])"
  by (induction pre) (auto simp add: QUICHE_ERR_DONE_def)

lemma recv_loop_error:
  "\<forall>p\<in>set pre. 0 \<le> fst p \<and> 0 \<le> snd (snd p) \<Longrightarrow> rd < 0 \<Longrightarrow>
     recv_loop (pre @ (rd, False, d) # rest) =
       (False, concat (map (\<lambda>p. [Sock_recv, Conn_recv (fst p)]) pre) @ [Sock_recv])"
  by (induction pre) (auto simp add: QUICHE_ERR_DONE_def)

lemma stream_loop_error:
  "recv_len < 0 \<Longrightarrow> \<forall>e\<in>set pre. 0 \<le> fst (snd e) \<Longrightarrow>
     stream_loop (pre @ (s, recv_len, fin, now) # rest) w = emit [Stream_recv s] (stream_loop pre w)"
proof (induction pre arbitrary: w)
  case Nil
  then show ?case by simp
next
  case (Cons e pre)
  obtain s' l' f' n' where e: "e = (s', l', f', n')" by (cases e) auto
  with Cons.prems have "0 \<le> l'" by simp
  with Cons show ?case by (simp add: e)
qed

lemma packets_idle: "packets idle = []"
  by (simp add: idle_def)

lemma replicate_2: "replicate 2 x = [x, x]"
  by (simp add: numeral_2_eq_2)

lemma two_ticks:
  "status (main_run idle [Request tick_ok, Request tick_ok]) = Running"
  "request_id (main_run idle [Request tick_ok, Request tick_ok]) = 12"
  using ticks_run [OF main_init_facts(1) main_init_facts(2), of 2 idle]
  by (simp_all add: main_run_def replicate_2 del: ev_loop_def)

subsection \<open>The report\<close>

lemma report_length: "length (report tbl) = nat N"
  by (simp add: report_def)

lemma report_nth:
  "0 \<le> i \<Longrightarrow> i < N \<Longrightarrow> report tbl ! nat i = Print_line i (elapsed (tbl ! nat i))"
  by (simp add: report_def)

lemma close_cb_trace:
  "trace (close_cb r w) = trace w @ report (fcts w) @ [Conn_close, Exit (if r < 0 then - 1 else 0)]"
  by (simp add: close_cb_def Let_def)

lemma sint_small:
  "- (2 ^ 63) \<le> x \<Longrightarrow> x < 2 ^ 63 \<Longrightarrow> sint (word_of_int x :: 64 word) = x"
  by (simp add: sint_sbintrunc' signed_take_bit_int_eq_self)

lemma elapsed_unset:
  assumes "fct_end e = tv_zero" "0 \<le> tv_sec (fct_begin e)" "tv_sec (fct_begin e) < 2 ^ 40"
    "0 \<le> tv_usec (fct_begin e)" "tv_usec (fct_begin e) < 1000000"
  shows "elapsed e = - (1000 * tv_sec (fct_begin e) + tv_usec (fct_begin e) div 1000)"
proof -
  let ?s = "tv_sec (fct_begin e)" and ?u = "tv_usec (fct_begin e)"
  have d: "(0 - ?u) sdiv 1000 = - (?u div 1000)"
    using assms(4) by (simp add: signed_divide_int_def sgn_if)
  have u: "?u div 1000 < 1000" "0 \<le> ?u div 1000" using assms(4,5) by simp_all
  have "elapsed e = sint (word_of_int (- (1000 * ?s + ?u div 1000)) :: 64 word)"
    using d by (simp add: elapsed_def assms(1) tv_zero_def)
  also have "\<dots> = - (1000 * ?s + ?u div 1000)"
    using assms(2,3) u by (intro sint_small) simp_all
  finally show ?thesis .
qed

lemma run_100:
  "status (main_run idle (replicate 100 (Request tick_ok))) = Running"
  "request_id (main_run idle (replicate 100 (Request tick_ok))) = 404"
  "length (fcts (main_run idle (replicate 100 (Request tick_ok)))) = 100"
  "fcts (main_run idle (replicate 100 (Request tick_ok))) ! 0 = fct_zero"
  "fcts (main_run idle (replicate 100 (Request tick_ok))) ! 1 = fct_zero\<lparr>fct_begin := t_issue\<rparr>"
  using ticks_run [OF main_init_facts(1) main_init_facts(2), of 100 idle]
  by (simp_all add: main_run_def del: ev_loop_def)

lemma elapsed_issue: "elapsed (fct_zero\<lparr>fct_begin := t_issue\<rparr>) = - 100500"
  by (simp add: elapsed_def fct_zero_def tv_zero_def t_issue_def)

subsection \<open>The invariant of entry 0 holds in every run\<close>

lemma begin_indices_append: "begin_indices (xs @ ys) = begin_indices xs @ begin_indices ys"
  by (induction xs rule: begin_indices.induct) simp_all

lemma end_indices_append: "end_indices (xs @ ys) = end_indices xs @ end_indices ys"
  by (induction xs rule: end_indices.induct) simp_all

lemma indices_send_loop [simp]:
  "begin_indices (snd (send_loop ps)) = []" "end_indices (snd (send_loop ps)) = []"
  by (induction ps rule: send_loop.induct) simp_all

lemma indices_recv_loop [simp]:
  "begin_indices (snd (recv_loop ds)) = []" "end_indices (snd (recv_loop ds)) = []"
  by (induction ds rule: recv_loop.induct) simp_all

lemma indices_report [simp]:
  "begin_indices (report tbl) = []" "end_indices (report tbl) = []"
proof -
  have "begin_indices (map (\<lambda>i. Print_line i (g i)) js) = [] \<and>
        end_indices (map (\<lambda>i. Print_line i (g i)) js) = []" for g and js :: "int list"
    by (induction js) simp_all
  then show "begin_indices (report tbl) = []" "end_indices (report tbl) = []"
    by (simp_all add: report_def)
qed

lemma slot0_inv_emit:
  "begin_indices es = [] \<Longrightarrow> end_indices es = [] \<Longrightarrow> slot0_inv w \<Longrightarrow> slot0_inv (emit es w)"
  by (simp add: slot0_inv_def begin_indices_append end_indices_append)

lemma slot0_inv_store_end: "slot0_inv w \<Longrightarrow> slot0_inv (store_end idx tv w)"
proof -
  assume a: "slot0_inv w"
  show ?thesis
  proof (cases "in_table idx \<and> idx = 0")
    case True
    with a show ?thesis
      by (simp add: slot0_inv_def store_end_def begin_indices_append end_indices_append N_def)
  next
    case False
    then have "in_table idx \<Longrightarrow> nat idx \<noteq> 0" by (auto simp add: in_table_def)
    with a show ?thesis
      by (auto simp add: slot0_inv_def store_end_def begin_indices_append end_indices_append)
  qed
qed

lemma slot0_inv_store_begin: "1 \<le> idx \<Longrightarrow> slot0_inv w \<Longrightarrow> slot0_inv (store_begin idx tv w)"
  by (auto simp add: slot0_inv_def store_begin_def begin_indices_append end_indices_append)

lemma slot0_inv_stream_loop: "slot0_inv w \<Longrightarrow> slot0_inv (stream_loop rs w)"
proof (induction rs w rule: stream_loop.induct)
  case (1 w)
  then show ?case by simp
next
  case (2 s recv_len fin now rs w)
  show ?case
  proof (cases "recv_len < 0")
    case True
    with 2 show ?thesis by (simp add: slot0_inv_emit)
  next
    case False
    have "slot0_inv ((if fin then store_end (uint (s div 4)) now else id)
                       (emit [Stream_recv s, Print_data recv_len] w))"
      using "2.prems" by (simp add: slot0_inv_emit slot0_inv_store_end)
    with False 2 show ?thesis by simp
  qed
qed

lemma slot0_inv_flush: "slot0_inv w \<Longrightarrow> slot0_inv (flush_egress f w)"
  by (simp add: slot0_inv_def begin_indices_append end_indices_append)

lemma slot0_inv_rearm: "slot0_inv w \<Longrightarrow> slot0_inv (rearm w)"
  by (simp add: slot0_inv_def)

lemma slot0_inv_status: "slot0_inv w \<Longrightarrow> slot0_inv (w\<lparr>status := st\<rparr>)"
  by (simp add: slot0_inv_def)

lemma slot0_inv_next_id: "slot0_inv w \<Longrightarrow> slot0_inv (w\<lparr>request_id := request_id w + 4\<rparr>)"
  by (simp add: slot0_inv_def)

lemma slot0_inv_init: "slot0_inv (flush_egress f main_init)"
  by (simp add: slot0_inv_def fct_zero_def N_def)

lemma slot0_inv_recv_cb: "slot0_inv w \<Longrightarrow> slot0_inv (recv_cb i w)"
  by (simp add: recv_cb_def Let_def slot0_inv_emit slot0_inv_status slot0_inv_flush
        slot0_inv_stream_loop)

lemma slot0_inv_timeout_cb: "slot0_inv w \<Longrightarrow> slot0_inv (timeout_cb i w)"
  by (simp add: timeout_cb_def Let_def slot0_inv_emit slot0_inv_status slot0_inv_flush)

lemma slot0_inv_close_cb: "slot0_inv w \<Longrightarrow> slot0_inv (close_cb r w)"
  by (simp add: close_cb_def Let_def slot0_inv_emit slot0_inv_status begin_indices_append
        end_indices_append)

lemma slot0_inv_request_cb: "slot0_inv w \<Longrightarrow> slot0_inv (request_cb i w)"
proof -
  assume a: "slot0_inv w"
  then have "4 \<le> request_id w" by (simp add: slot0_inv_def)
  then have i: "1 \<le> request_id w sdiv 4" by (simp add: sdiv4_nonneg)
  let ?w1 = "emit [Stream_send (request_id w) (stream_send_result i)] w"
  have w1: "slot0_inv ?w1" using a by (simp add: slot0_inv_emit)
  have "slot0_inv ((store_begin (request_id ?w1 sdiv 4) (q_now i) ?w1)\<lparr>request_id := request_id ?w1 + 4\<rparr>)"
    using slot0_inv_next_id [OF slot0_inv_store_begin [OF _ w1, of "request_id ?w1 sdiv 4" "q_now i"]] i
    by simp
  with a w1 show ?thesis
    by (simp add: request_cb_def Let_def slot0_inv_flush slot0_inv_rearm)
qed

lemma slot0_inv_dispatch: "slot0_inv w \<Longrightarrow> slot0_inv (dispatch w s)"
  by (cases s)
     (simp_all add: slot0_inv_recv_cb slot0_inv_timeout_cb slot0_inv_close_cb slot0_inv_request_cb)

lemma slot0_inv_main_run: "slot0_inv (main_run f ss)"
proof (induction ss rule: rev_induct)
  case Nil
  then show ?case by (simp add: main_run_Nil slot0_inv_init)
next
  case (snoc s ss)
  then show ?case by (simp add: main_run_snoc slot0_inv_dispatch del: dispatch.simps)
qed

lemma run_100_served:
  "status (main_run idle (replicate 100 (Request tick_ok) @ [Readable server_stream])) = Running"
  "fcts (main_run idle (replicate 100 (Request tick_ok) @ [Readable server_stream])) ! 0 =
     fct_zero\<lparr>fct_end := t_done\<rparr>"
proof -
  let ?w = "main_run idle (replicate 100 (Request tick_ok))"
  have e: "main_run idle (replicate 100 (Request tick_ok) @ [Readable server_stream]) =
             recv_cb server_stream ?w"
    by (simp add: main_run_snoc run_100)
  have i: "uint ((3 :: 64 word) div 4) = 0" by simp
  show "status (main_run idle (replicate 100 (Request tick_ok) @ [Readable server_stream])) = Running"
    unfolding e by (simp add: recv_cb_def Let_def server_stream_def QUICHE_ERR_DONE_def run_100)
  show "fcts (main_run idle (replicate 100 (Request tick_ok) @ [Readable server_stream])) ! 0 =
     fct_zero\<lparr>fct_end := t_done\<rparr>"
    unfolding e
    by (simp add: recv_cb_def Let_def server_stream_def QUICHE_ERR_DONE_def store_end_def
          in_table_def N_def run_100)
qed

subsection \<open>Which calls a flush makes, and which loops make none of them\<close>

lemma send_loop_starts:
  "snd (send_loop ps) \<noteq> [] \<and> hd (snd (send_loop ps)) = Conn_send"
  by (induction ps rule: send_loop.induct) simp_all

lemma recv_loop_no_send: "Conn_send \<notin> set (snd (recv_loop ds))"
  by (induction ds rule: recv_loop.induct) simp_all

lemma report_no_send: "Conn_send \<notin> set (report tbl)"
  by (auto simp add: report_def)

section \<open>The claims\<close>

subsection \<open>Stream identifiers\<close>

text \<open>
  C7: in every run the identifier counter is 4 plus four times the number of requests
  issued so far (so it starts at 4 and grows by 4 with each request issued), and the
  \<open>i\<close>-th request issued, counting from 0, used the stream identifier \<open>4 + 4 * i\<close>.
\<close>

theorem request_identifier_stride:
  "request_id (main_run f ss) = 4 + 4 * int (length (issued (trace (main_run f ss)))) \<and>
   (i < length (issued (trace (main_run f ss))) \<longrightarrow>
      issued (trace (main_run f ss)) ! i = 4 + 4 * int i)"
proof -
  let ?xs = "issued (trace (main_run f ss))"
  have inv: "id_inv (main_run f ss)" by (rule id_inv_main_run)
  then have m: "?xs = map (\<lambda>k. 4 + 4 * int k) [0..<length ?xs]"
    by (simp add: id_inv_def)
  have "?xs ! i = 4 + 4 * int i" if "i < length ?xs"
  proof -
    have "?xs ! i = map (\<lambda>k. 4 + 4 * int k) [0..<length ?xs] ! i"
      using m by simp
    also have "\<dots> = 4 + 4 * int i"
      using that by simp
    finally show ?thesis .
  qed
  with inv show ?thesis by (simp add: id_inv_def)
qed

theorem request_identifier_stride_witness:
  "99 < length (issued (trace (main_run idle (replicate 100 (Request tick_ok))))) \<and>
   issued (trace (main_run idle (replicate 100 (Request tick_ok)))) ! 99 = 400 \<and>
   request_id (main_run idle (replicate 100 (Request tick_ok))) = 404"
proof -
  have l: "length (issued (trace (main_run idle (replicate 100 (Request tick_ok))))) = 100"
    by (simp add: run_100_issued)
  show ?thesis
    using request_identifier_stride [of idle "replicate 100 (Request tick_ok)" 99]
    by (simp add: l)
qed

subsection \<open>The request budget\<close>

text \<open>
  C8: whatever stimuli the loop receives and however often the cadence timer fires, the
  number of requests issued never exceeds \<open>N\<close>; once \<open>N\<close> requests have been issued, no
  further stimulus issues another one.
\<close>

theorem issued_within_budget:
  "int (length (issued (trace (main_run f ss)))) \<le> N \<and>
   (int (length (issued (trace (main_run f ss)))) = N \<longrightarrow>
      issued (trace (main_run f (ss @ ts))) = issued (trace (main_run f ss)))"
proof -
  have inv: "id_inv (main_run f ss)" by (rule id_inv_main_run)
  then have le: "int (length (issued (trace (main_run f ss)))) \<le> N"
    by (simp add: id_inv_def)
  have "issued (trace (main_run f (ss @ ts))) = issued (trace (main_run f ss))"
    if "int (length (issued (trace (main_run f ss)))) = N"
  proof -
    have "4 * N < request_id (main_run f ss)"
      using inv that by (simp add: id_inv_def)
    then show ?thesis
      using frozen_ev_loop [of "main_run f ss" ts] by (simp add: main_run_def ev_loop_append)
  qed
  with le show ?thesis by blast
qed

theorem issued_within_budget_witness:
  "int (length (issued (trace (main_run idle (replicate 100 (Request tick_ok)))))) = N \<and>
   issued (trace (main_run idle (replicate 100 (Request tick_ok) @ [Request tick_ok, Request tick_ok]))) =
   issued (trace (main_run idle (replicate 100 (Request tick_ok))))"
proof -
  have l: "int (length (issued (trace (main_run idle (replicate 100 (Request tick_ok)))))) = N"
    by (simp add: run_100_issued N_def)
  show ?thesis
    using issued_within_budget [of idle "replicate 100 (Request tick_ok)" "[Request tick_ok, Request tick_ok]"] l
    by blast
qed

subsection \<open>Indices into the timing table\<close>

text \<open>
  C1: the claim that every issued request's index \<open>identifier / 4\<close> lies within
  \<open>0..N-1\<close> fails for the last request of the budget. On an established connection whose
  stream writes all succeed, the 100th request tick writes stream 400 and stores the begin
  timestamp at index 100, which is outside the table of \<open>N = 100\<close> entries.
\<close>

theorem last_request_store_outside_table:
  "trace (main_run idle (replicate 100 (Request tick_ok))) =
     trace (main_run idle (replicate 99 (Request tick_ok))) @
       [Stream_send 400 18, Set_begin 100 t_issue, Conn_send] \<and>
   \<not> in_table 100"
proof -
  let ?w = "main_run idle (replicate 99 (Request tick_ok))"
  have r: "request_id ?w = 4 + 4 * int 99" "status ?w = Running"
    using ticks_run [OF main_init_facts(1) main_init_facts(2), of 99 idle]
    by (simp_all add: main_run_def)
  have e: "main_run idle (replicate 100 (Request tick_ok)) = dispatch ?w (Request tick_ok)"
    by (simp only: main_run_def replicate_100 ev_loop_snoc)
  have "trace (dispatch ?w (Request tick_ok)) =
          trace ?w @ [Stream_send (4 + 4 * int 99) 18, Set_begin (1 + int 99) t_issue, Conn_send]"
    by (rule tick_ok_step(3) [OF r(2) r(1)]) simp
  then show ?thesis
    by (simp add: e in_table_def N_def del: dispatch.simps)
qed

subsection \<open>A stream write that fails\<close>

text \<open>
  C6: when the request tick attempts the stream write and the engine answers with a
  negative result, the handler changes nothing but the trace, which gains the failed
  call: the identifier counter, the timing table (no begin timestamp is stored) and the
  cadence timer are as before, and the next tick on the established connection starts by
  writing to the same stream identifier again.
\<close>

theorem failed_write_skips_tick:
  "q_is_established i \<Longrightarrow> request_id w \<le> 4 * N \<Longrightarrow> stream_send_result i < 0 \<Longrightarrow>
     request_cb i w = emit [Stream_send (request_id w) (stream_send_result i)] w \<and>
     request_id (request_cb i w) = request_id w \<and>
     fcts (request_cb i w) = fcts w \<and>
     request (request_cb i w) = request w \<and>
     (q_is_established j \<longrightarrow>
        (\<exists>rest. trace (request_cb j (request_cb i w)) =
                  trace (request_cb i w) @ Stream_send (request_id w) (stream_send_result j) # rest))"
  by (simp add: request_cb_def Let_def)

theorem failed_write_skips_tick_witness:
  "q_is_established tick_fail \<and> request_id (main_run idle []) \<le> 4 * N \<and>
   stream_send_result tick_fail < 0 \<and> q_is_established tick_ok \<and>
   request_id (request_cb tick_fail (main_run idle [])) = 4 \<and>
   fcts (request_cb tick_fail (main_run idle [])) = replicate 100 fct_zero \<and>
   trace (request_cb tick_fail (main_run idle [])) = [Conn_send, Stream_send 4 (- 12)] \<and>
   (\<exists>rest. trace (request_cb tick_ok (request_cb tick_fail (main_run idle []))) =
             [Conn_send, Stream_send 4 (- 12)] @ Stream_send 4 18 # rest)"
proof -
  let ?w = "main_run idle []"
  have h: "q_is_established tick_fail" "request_id ?w \<le> 4 * N"
    "stream_send_result tick_fail < 0" "q_is_established tick_ok"
    by (simp_all add: tick_fail_def tick_ok_def main_run_Nil N_def)
  have t: "trace ?w = [Conn_send]" "request_id ?w = 4" "fcts ?w = replicate 100 fct_zero"
    "stream_send_result tick_fail = - 12" "stream_send_result tick_ok = 18"
    by (simp_all add: main_run_Nil idle_def tick_fail_def tick_ok_def)
  note th = failed_write_skips_tick [OF h(1) h(2) h(3), of tick_ok]
  have a: "request_cb tick_fail ?w = emit [Stream_send 4 (- 12)] ?w"
    using th t by simp
  have b: "trace (request_cb tick_fail ?w) = [Conn_send, Stream_send 4 (- 12)]"
    unfolding a by (simp add: t)
  have c: "\<exists>rest. trace (request_cb tick_ok (request_cb tick_fail ?w)) =
             [Conn_send, Stream_send 4 (- 12)] @ Stream_send 4 18 # rest"
    using th h(4) unfolding b t by blast
  show ?thesis
    using h b c unfolding a by (simp add: t)
qed

subsection \<open>Exit status of the shutdown handler\<close>

text \<open>
  C9: the shutdown handler always ends the process. It exits with \<open>exit(0)\<close>, status 0,
  when the engine's answer to the close request is not negative, and with \<open>exit(-1)\<close>,
  a nonzero status, when it is negative; the exit is the last thing it does.
\<close>

theorem close_cb_exit_status:
  "status (close_cb r w) = Exited (if r < 0 then - 1 else 0) \<and>
   last (trace (close_cb r w)) = Exit (if r < 0 then - 1 else 0) \<and>
   (exit_status (if r < 0 then - 1 else 0) = 0 \<longleftrightarrow> 0 \<le> r)"
  by (simp add: close_cb_def Let_def exit_status_def)

theorem close_cb_exit_status_witness:
  "status (close_cb 0 (main_run idle [])) = Exited 0 \<and> exit_status 0 = 0 \<and>
   status (close_cb (- 1) (main_run idle [])) = Exited (- 1) \<and> exit_status (- 1) = 255"
  using close_cb_exit_status [of 0 "main_run idle []"]
        close_cb_exit_status [of "- 1" "main_run idle []"]
  by (simp add: exit_status_def)

subsection \<open>Flushing at the end of a handler\<close>




subsection \<open>Transport errors\<close>

text \<open>
  C4, as stated, fails. When the first \<open>send\<close> of the flush in \<open>main\<close> would block
  (result -1 for a packet of 1200 bytes), the process does not exit: it is still running,
  and the next request tick sends a packet. When \<open>recv\<close> fails with an error other than
  would-block, the process does not exit either, and the next request tick sends a packet.
\<close>

theorem transport_error_does_not_exit:
  "status (main_run blocked_send [Request tick_handshaking]) = Running \<and>
   trace (main_run blocked_send [Request tick_handshaking]) =
     [Conn_send, Sock_send 1200, Conn_send, Sock_send 1200, Conn_send] \<and>
   status (main_run idle [Readable recv_fails, Request tick_handshaking]) = Running \<and>
   trace (main_run idle [Readable recv_fails, Request tick_handshaking]) =
     [Conn_send, Sock_recv, Conn_send, Sock_send 1200, Conn_send]"
  by (simp add: main_run_def ev_loop_def request_cb_def recv_cb_def Let_def
        blocked_send_def tick_handshaking_def recv_fails_def one_packet_def idle_def
        QUICHE_ERR_DONE_def)

text \<open>
  C4, amended: a send that writes fewer bytes than intended (would-block included) makes
  \<open>flush_egress\<close> return at once: the packets before it were sent, no further packet is
  asked for in this flush, the retransmission timer is not re-armed, and nothing but the
  trace changes. A receive error other than would-block makes \<open>recv_cb\<close> return at once:
  no stream is read, egress is not flushed, and nothing but the trace changes. In both
  cases the process keeps running.
\<close>

theorem transport_error_returns:
  "(packets f = pre @ (written, sent) # rest \<and> (\<forall>p\<in>set pre. 0 \<le> fst p \<and> snd p = fst p) \<and>
    0 \<le> written \<and> sent \<noteq> written \<longrightarrow>
      flush_egress f w =
        emit (concat (map (\<lambda>p. [Conn_send, Sock_send (fst p)]) pre) @ [Conn_send, Sock_send written]) w \<and>
      status (flush_egress f w) = status w \<and> timer (flush_egress f w) = timer w) \<and>
   (datagrams i = dpre @ (rd, False, d) # drest \<and>
    (\<forall>p\<in>set dpre. 0 \<le> fst p \<and> 0 \<le> snd (snd p)) \<and> rd < 0 \<longrightarrow>
      recv_cb i w = emit (concat (map (\<lambda>p. [Sock_recv, Conn_recv (fst p)]) dpre) @ [Sock_recv]) w \<and>
      status (recv_cb i w) = status w)"
proof (intro conjI impI)
  assume a: "packets f = pre @ (written, sent) # rest \<and> (\<forall>p\<in>set pre. 0 \<le> fst p \<and> snd p = fst p) \<and>
    0 \<le> written \<and> sent \<noteq> written"
  then have s: "send_loop (packets f) =
       (False, concat (map (\<lambda>p. [Conn_send, Sock_send (fst p)]) pre) @ [Conn_send, Sock_send written])"
    using send_loop_short [of pre written sent rest] by simp
  show "flush_egress f w =
        emit (concat (map (\<lambda>p. [Conn_send, Sock_send (fst p)]) pre) @ [Conn_send, Sock_send written]) w"
    by (simp add: flush_egress_def s)
  show "status (flush_egress f w) = status w" by simp
  show "timer (flush_egress f w) = timer w"
    by (simp add: flush_egress_def s)
next
  assume a: "datagrams i = dpre @ (rd, False, d) # drest \<and>
    (\<forall>p\<in>set dpre. 0 \<le> fst p \<and> 0 \<le> snd (snd p)) \<and> rd < 0"
  then have s: "recv_loop (datagrams i) =
       (False, concat (map (\<lambda>p. [Sock_recv, Conn_recv (fst p)]) dpre) @ [Sock_recv])"
    using recv_loop_error [of dpre rd d drest] by simp
  show "recv_cb i w = emit (concat (map (\<lambda>p. [Sock_recv, Conn_recv (fst p)]) dpre) @ [Sock_recv]) w"
    by (simp add: recv_cb_def s)
  show "status (recv_cb i w) = status w"
    by (simp add: recv_cb_def s)
qed

theorem transport_error_returns_witness:
  "packets \<lparr>packets = [(1200, 1200), (1200, 800), (1200, 1200)], timeout_as_nanos = 5\<rparr> =
     [(1200, 1200)] @ (1200, 800) # [(1200, 1200)] \<and>
   (0::int) \<le> 1200 \<and> (800::int) \<noteq> 1200 \<and>
   trace (flush_egress \<lparr>packets = [(1200, 1200), (1200, 800), (1200, 1200)], timeout_as_nanos = 5\<rparr> main_init) =
     [Conn_send, Sock_send 1200, Conn_send, Sock_send 1200] \<and>
   status (flush_egress \<lparr>packets = [(1200, 1200), (1200, 800), (1200, 1200)], timeout_as_nanos = 5\<rparr> main_init) = Running \<and>
   datagrams (recv_fails\<lparr>datagrams := [(1200, False, 1200), (- 1, False, 0), (1200, False, 1200)]\<rparr>) =
     [(1200, False, 1200)] @ (- 1, False, 0) # [(1200, False, 1200)] \<and>
   (- 1 :: int) < 0 \<and>
   trace (recv_cb (recv_fails\<lparr>datagrams := [(1200, False, 1200), (- 1, False, 0), (1200, False, 1200)]\<rparr>) main_init) =
     [Sock_recv, Conn_recv 1200, Sock_recv] \<and>
   status (recv_cb (recv_fails\<lparr>datagrams := [(1200, False, 1200), (- 1, False, 0), (1200, False, 1200)]\<rparr>) main_init) = Running"
  using transport_error_returns [of "\<lparr>packets = [(1200, 1200), (1200, 800), (1200, 1200)], timeout_as_nanos = 5\<rparr>"
          "[(1200, 1200)]" 1200 800 "[(1200, 1200)]" main_init
          "recv_fails\<lparr>datagrams := [(1200, False, 1200), (- 1, False, 0), (1200, False, 1200)]\<rparr>"
          "[(1200, False, 1200)]" "- 1" 0 "[(1200, False, 1200)]"]
  by (simp add: recv_fails_def)

subsection \<open>A stream read that fails\<close>

text \<open>
  C2, as stated, fails. Streams 4 and 8 have been requested and both are readable; the
  read of stream 4 returns an error. The handler reads stream 4, leaves the enumeration
  and flushes: stream 8 is not read in this pass.
\<close>

theorem stream_error_skips_remaining_streams:
  "trace (main_run idle [Request tick_ok, Request tick_ok, Readable two_streams]) =
     trace (main_run idle [Request tick_ok, Request tick_ok]) @
       [Sock_recv, Conn_recv 1200, Sock_recv, Stream_recv 4, Conn_send]"
proof -
  let ?w = "main_run idle [Request tick_ok, Request tick_ok]"
  have e: "main_run idle [Request tick_ok, Request tick_ok, Readable two_streams] =
          dispatch ?w (Readable two_streams)"
    using main_run_snoc [of idle "[Request tick_ok, Request tick_ok]" "Readable two_streams"]
    by simp
  have d: "dispatch ?w (Readable two_streams) = recv_cb two_streams ?w"
    by (simp add: two_ticks)
  have "trace (recv_cb two_streams ?w) =
          trace ?w @ [Sock_recv, Conn_recv 1200, Sock_recv, Stream_recv 4, Conn_send]"
    by (simp add: recv_cb_def Let_def two_streams_def packets_idle QUICHE_ERR_DONE_def)
  then show ?thesis
    unfolding e d .
qed

text \<open>
  C2, amended: when reading a readable stream returns an error (negative result), the
  enumeration ends there for this pass: the streams before it have been read, the failing
  stream is abandoned and the streams after it are not read. The handler itself goes on:
  it flushes egress and returns to the loop, and the process keeps running.
\<close>

theorem stream_error_ends_enumeration:
  "fst (recv_loop (datagrams i)) \<Longrightarrow> \<not> r_is_closed i \<Longrightarrow> r_is_established i \<Longrightarrow>
   readable i = pre @ (s, recv_len, fin, now) # rest \<Longrightarrow> recv_len < 0 \<Longrightarrow>
   \<forall>e\<in>set pre. 0 \<le> fst (snd e) \<Longrightarrow>
     recv_cb i w =
       flush_egress (r_flush i)
         (emit [Stream_recv s] (stream_loop pre (emit (snd (recv_loop (datagrams i))) w))) \<and>
     status (recv_cb i w) = status w"
  by (simp add: recv_cb_def Let_def stream_loop_error)

theorem stream_error_ends_enumeration_witness:
  "fst (recv_loop (datagrams three_streams)) \<and> \<not> r_is_closed three_streams \<and>
   r_is_established three_streams \<and>
   readable three_streams =
     [(4, 10, True, t_done)] @ (8, - 7, False, t_done) # [(12, 10, True, t_done)] \<and>
   (- 7 :: int) < 0 \<and>
   trace (recv_cb three_streams main_init) =
     [Sock_recv, Conn_recv 1200, Sock_recv, Stream_recv 4, Print_data 10, Set_end 1 t_done,
      Stream_recv 8, Conn_send] \<and>
   status (recv_cb three_streams main_init) = Running"
proof -
  have h: "fst (recv_loop (datagrams three_streams))" "\<not> r_is_closed three_streams"
    "r_is_established three_streams"
    "readable three_streams =
       [(4, 10, True, t_done)] @ (8, - 7, False, t_done) # [(12, 10, True, t_done)]"
    "(- 7 :: int) < 0"
    "\<forall>e\<in>set [(4 :: 64 word, 10 :: int, True, t_done)]. 0 \<le> fst (snd e)"
    by (simp_all add: three_streams_def QUICHE_ERR_DONE_def)
  have i: "uint ((4 :: 64 word) div 4) = 1" by simp
  show ?thesis
    using stream_error_ends_enumeration [OF h, of main_init] h(1-5)
    by (simp add: three_streams_def idle_def QUICHE_ERR_DONE_def i)
qed

subsection \<open>The latency report\<close>

text \<open>
  C3, as stated, fails. After 100 requests issued at time 100.5 s and never answered, the
  end timestamp of entry 1 is still the zero it was initialised with. The shutdown handler
  prints a line for it all the same, and the value is computed by subtraction: -100500.
\<close>

theorem unanswered_request_reported_by_subtraction:
  "fct_end (fcts (main_run idle (replicate 100 (Request tick_ok))) ! 1) = tv_zero \<and>
   trace (main_run idle (replicate 100 (Request tick_ok) @ [Close 0])) =
     trace (main_run idle (replicate 100 (Request tick_ok))) @
     report (fcts (main_run idle (replicate 100 (Request tick_ok)))) @ [Conn_close, Exit 0] \<and>
   report (fcts (main_run idle (replicate 100 (Request tick_ok)))) ! 1 = Print_line 1 (- 100500)"
proof -
  let ?w = "main_run idle (replicate 100 (Request tick_ok))"
  have a: "fct_end (fcts ?w ! 1) = tv_zero"
    using run_100(5) by (simp add: fct_zero_def)
  have b: "main_run idle (replicate 100 (Request tick_ok) @ [Close 0]) = close_cb 0 ?w"
    by (simp add: main_run_snoc run_100)
  have c: "report (fcts ?w) ! 1 = Print_line 1 (- 100500)"
    using report_nth [of 1 "fcts ?w"] run_100(5) by (simp add: N_def elapsed_issue)
  show ?thesis
    unfolding b using a c by (simp add: close_cb_trace)
qed

text \<open>
  C3, amended: the shutdown handler prints one line for each of the \<open>N\<close> entries of the
  table, whether or not the entry's end timestamp was ever set, and the value of every
  line is computed by subtracting the begin timestamp from the end timestamp, in whole
  milliseconds. For an entry whose end timestamp is still zero and whose begin timestamp
  is a time of day, the value printed is minus the begin time in milliseconds.
\<close>

theorem report_subtracts_for_every_entry:
  "0 \<le> i \<Longrightarrow> i < N \<Longrightarrow>
     trace (close_cb r w) =
       trace w @ report (fcts w) @ [Conn_close, Exit (if r < 0 then - 1 else 0)] \<and>
     length (report (fcts w)) = nat N \<and>
     report (fcts w) ! nat i = Print_line i (elapsed (fcts w ! nat i)) \<and>
     (fct_end (fcts w ! nat i) = tv_zero \<and>
      0 \<le> tv_sec (fct_begin (fcts w ! nat i)) \<and> tv_sec (fct_begin (fcts w ! nat i)) < 2 ^ 40 \<and>
      0 \<le> tv_usec (fct_begin (fcts w ! nat i)) \<and> tv_usec (fct_begin (fcts w ! nat i)) < 1000000 \<longrightarrow>
        elapsed (fcts w ! nat i) =
          - (1000 * tv_sec (fct_begin (fcts w ! nat i)) + tv_usec (fct_begin (fcts w ! nat i)) div 1000))"
  using elapsed_unset [of "fcts w ! nat i"]
  by (simp add: close_cb_trace report_length report_nth)

theorem report_subtracts_for_every_entry_witness:
  "(0::int) \<le> 1 \<and> 1 < N \<and>
   fct_end (fcts (main_run idle (replicate 100 (Request tick_ok))) ! nat 1) = tv_zero \<and>
   tv_sec (fct_begin (fcts (main_run idle (replicate 100 (Request tick_ok))) ! nat 1)) = 100 \<and>
   tv_usec (fct_begin (fcts (main_run idle (replicate 100 (Request tick_ok))) ! nat 1)) = 500000 \<and>
   report (fcts (main_run idle (replicate 100 (Request tick_ok)))) ! nat 1 = Print_line 1 (- 100500)"
proof -
  let ?w = "main_run idle (replicate 100 (Request tick_ok))"
  have h: "(0::int) \<le> 1" "1 < N" by (simp_all add: N_def)
  have f: "fcts ?w ! nat 1 = fct_zero\<lparr>fct_begin := t_issue\<rparr>"
    using run_100(5) by simp
  show ?thesis
    using report_subtracts_for_every_entry [OF h, of 0 ?w] h
    unfolding f by (simp add: fct_zero_def t_issue_def tv_zero_def)
qed

subsection \<open>Entry 0 of the timing table\<close>

text \<open>
  C10, as stated, fails in its last part. After the 100 requests the server finishes a
  stream of its own, stream 3; its index is 3 / 4 = 0, so the ingress handler stores an end
  timestamp in entry 0. The report's line for index 0 is then computed from that
  timestamp (101 s), not from two zero timestamps: it reads 101000.
\<close>

theorem entry_zero_end_written_by_server_stream:
  "trace (main_run idle (replicate 100 (Request tick_ok) @ [Readable server_stream, Close 0])) =
     trace (main_run idle (replicate 100 (Request tick_ok) @ [Readable server_stream])) @
     report (fcts (main_run idle (replicate 100 (Request tick_ok) @ [Readable server_stream]))) @
     [Conn_close, Exit 0] \<and>
   report (fcts (main_run idle (replicate 100 (Request tick_ok) @ [Readable server_stream]))) ! 0 =
     Print_line 0 101000"
proof -
  let ?w = "main_run idle (replicate 100 (Request tick_ok) @ [Readable server_stream])"
  have b: "main_run idle (replicate 100 (Request tick_ok) @ [Readable server_stream, Close 0]) =
             close_cb 0 ?w"
    using main_run_snoc [of idle "replicate 100 (Request tick_ok) @ [Readable server_stream]" "Close 0"]
    by (simp add: run_100_served)
  have c: "report (fcts ?w) ! 0 = Print_line 0 101000"
    using report_nth [of 0 "fcts ?w"]
    by (simp add: N_def run_100_served elapsed_def fct_zero_def tv_zero_def t_done_def)
  show ?thesis
    unfolding b using c by (simp add: close_cb_trace)
qed

text \<open>
  C10, amended: in every run the begin timestamp of entry 0 stays zero, because every
  index at which the request scheduler stores a begin timestamp is at least 1; so the
  report's line for index 0 never belongs to an issued request. As long as no end
  timestamp has been stored at index 0 (no stream with an identifier below 4 has
  finished), entry 0 is all zero and its line reads 0.
\<close>

theorem entry_zero_begin_never_written:
  "fct_begin (fcts (main_run f ss) ! 0) = tv_zero \<and>
   (\<forall>idx\<in>set (begin_indices (trace (main_run f ss))). 1 \<le> idx) \<and>
   (0 \<notin> set (end_indices (trace (main_run f ss))) \<longrightarrow>
      fcts (main_run f ss) ! 0 = fct_zero \<and>
      report (fcts (main_run f ss)) ! 0 = Print_line 0 0)"
proof -
  let ?w = "main_run f ss"
  have inv: "slot0_inv ?w" by (rule slot0_inv_main_run)
  have z: "fcts ?w ! 0 = fct_zero \<and> report (fcts ?w) ! 0 = Print_line 0 0"
    if "0 \<notin> set (end_indices (trace ?w))"
  proof -
    have "fct_begin (fcts ?w ! 0) = tv_zero" "fct_end (fcts ?w ! 0) = tv_zero"
      using inv that by (simp_all add: slot0_inv_def)
    then have e: "fcts ?w ! 0 = fct_zero"
      by (simp add: fct_zero_def)
    have "report (fcts ?w) ! 0 = Print_line 0 (elapsed (fcts ?w ! 0))"
      using report_nth [of 0 "fcts ?w"] by (simp add: N_def)
    with e show ?thesis
      by (simp add: elapsed_def fct_zero_def tv_zero_def)
  qed
  from inv z show ?thesis by (simp add: slot0_inv_def)
qed

theorem entry_zero_begin_never_written_witness:
  "begin_indices (trace (main_run idle [Request tick_ok, Request tick_ok])) = [1, 2] \<and>
   end_indices (trace (main_run idle [Request tick_ok, Request tick_ok])) = [] \<and>
   fcts (main_run idle [Request tick_ok, Request tick_ok]) ! 0 = fct_zero \<and>
   report (fcts (main_run idle [Request tick_ok, Request tick_ok])) ! 0 = Print_line 0 0"
proof -
  let ?w = "main_run idle [Request tick_ok, Request tick_ok]"
  have t: "trace ?w = [Conn_send, Stream_send 4 18, Set_begin 1 t_issue, Conn_send,
                        Stream_send 8 18, Set_begin 2 t_issue, Conn_send]"
    using ticks_run [OF main_init_facts(1) main_init_facts(2), of 2 idle]
    by (simp add: main_run_def replicate_2 packets_idle numeral_2_eq_2)
  have b: "begin_indices (trace ?w) = [1, 2]" "end_indices (trace ?w) = []"
    by (simp_all add: t)
  show ?thesis
    using entry_zero_begin_never_written [of idle "[Request tick_ok, Request tick_ok]"] b
    by simp
qed

end
